theory Spec2Isabelle
  imports Main "HOL-Library.Sublist"
begin

section \<open>Syntax trees\<close>

text \<open>
  The rules of the plugin inspect ESTree nodes handed over by the linter. A node is a
  record with a \<open>type\<close> tag; the rules tell node kinds apart by that tag and then read the
  fields of the kind. The model keeps one constructor for each kind a rule looks at, with
  exactly the fields the rules read, and \<open>OtherNode\<close> (with its tag) for everything else.

  \<^item> \<open>Identifier\<close> holds \<open>name\<close>, \<open>Literal\<close> holds \<open>value\<close> (numbers are kept as
    integers; the rules compare literal values with strings only).
  \<^item> \<open>ObjectExpression\<close> and \<open>ObjectPattern\<close> hold \<open>properties\<close>: \<open>Property\<close> nodes and,
    for \<open>{...x}\<close>, \<open>SpreadElement\<close> / \<open>RestElement\<close> nodes, which have no \<open>key\<close> and no
    \<open>value\<close>.
  \<^item> \<open>Property\<close> holds \<open>key\<close> and \<open>value\<close>. No rule reads its flags \<open>computed\<close>,
    \<open>shorthand\<close> and \<open>method\<close>: \<open>[field]: v\<close> is to the rules what \<open>field: v\<close> is.
  \<^item> \<open>ArrowFunctionExpression\<close> and \<open>FunctionExpression\<close> hold \<open>params\<close>,
    \<open>FunctionDeclaration\<close> holds \<open>id\<close> and \<open>params\<close>; no rule reads a body.
  \<^item> \<open>ArrayExpression\<close> holds \<open>elements\<close>; a hole (\<open>[, x]\<close>) is \<open>null\<close>, here \<open>None\<close>.
  \<^item> \<open>CallExpression\<close> holds \<open>callee\<close>, \<open>arguments\<close> and the optional \<open>typeParameters\<close>.
  \<^item> \<open>VariableDeclarator\<close> holds \<open>id\<close> and the optional \<open>init\<close>.
  \<^item> \<open>ExportNamedDeclaration\<close> holds the optional \<open>declaration\<close>.
  \<^item> \<open>VariableDeclaration\<close> holds \<open>declarations\<close>, \<open>Program\<close> holds \<open>body\<close>.
  \<^item> \<open>ImportDeclaration\<close> holds the string \<open>source.value\<close>.
\<close>

datatype error = TypeError | SyntaxError

datatype literal_value =
    StringValue string
  | NumberValue int
  | BooleanValue bool
  | NullValue

datatype node =
    Identifier string
  | Literal literal_value
  | ObjectExpression "node list"
  | ArrayExpression "node option list"
  | Property node node
  | SpreadElement node
  | RestElement node
  | ObjectPattern "node list"
  | ArrowFunctionExpression "node list"
  | FunctionExpression "node list"
  | CallExpression node "node list" "node option"
  | AwaitExpression node
  | VariableDeclarator node "node option"
  | VariableDeclaration "node list"
  | FunctionDeclaration node "node list"
  | ExportNamedDeclaration "node option"
  | ImportDeclaration string
  | Program "node list"
  | OtherNode string

record diagnostic =
  node :: node
  message :: string

text \<open>
  Reading a field a node does not have gives \<open>undefined\<close> (\<open>None\<close>); reading a field of
  \<open>undefined\<close> throws a \<open>TypeError\<close>.
\<close>

fun key_of :: "node \<Rightarrow> node option" where
  "key_of (Property k v) = Some k"
| "key_of _ = None"

fun value_of :: "node \<Rightarrow> node option" where
  "value_of (Property k v) = Some v"
| "value_of _ = None"

fun name_of :: "node \<Rightarrow> string option" where
  "name_of (Identifier n) = Some n"
| "name_of _ = None"

fun is_Identifier :: "node \<Rightarrow> bool" where
  "is_Identifier (Identifier n) = True"
| "is_Identifier _ = False"

section \<open>Array methods over callbacks that may throw\<close>

text \<open>
  \<open>Array.prototype.some\<close> and \<open>Array.prototype.find\<close> visit the elements in order and stop
  at the first one the callback accepts; an exception of the callback ends the scan.
\<close>

fun some_e :: "('a \<Rightarrow> error + bool) \<Rightarrow> 'a list \<Rightarrow> error + bool" where
  "some_e f [] = Inr False"
| "some_e f (x # xs) =
     (case f x of
        Inl e \<Rightarrow> Inl e
      | Inr b \<Rightarrow> if b then Inr True else some_e f xs)"

fun find_e :: "('a \<Rightarrow> error + bool) \<Rightarrow> 'a list \<Rightarrow> error + 'a option" where
  "find_e f [] = Inr None"
| "find_e f (x # xs) =
     (case f x of
        Inl e \<Rightarrow> Inl e
      | Inr b \<Rightarrow> if b then Inr (Some x) else find_e f xs)"

section \<open>The rule require-entity-query-conditions\<close>

text \<open>
  The callback \<open>prop => prop.key.type === 'Identifier' && prop.key.name === name\<close>, which
  \<open>hasRequiredConditions\<close> and \<open>conditionsArrayHasRequired\<close> pass to \<open>find\<close> with the names
  \<open>__args\<close>, \<open>filter\<close>, \<open>conditions\<close>, \<open>groups\<close>, \<open>conjunction\<close> and \<open>field\<close>.
  \<open>prop.key\<close> is read without a guard.
\<close>

definition keyIs :: "string \<Rightarrow> node \<Rightarrow> error + bool" where
  "keyIs name prop =
     (case key_of prop of
        None \<Rightarrow> Inl TypeError
      | Some k \<Rightarrow> Inr (is_Identifier k \<and> name_of k = Some name))"

text \<open>
  \<open>fieldProperty && fieldProperty.value && fieldProperty.value.type === 'Literal' &&
  fieldProperty.value.value === name\<close>
\<close>

fun literalEquals :: "node option \<Rightarrow> string \<Rightarrow> bool" where
  "literalEquals (Some (Literal v)) s = (v = StringValue s)"
| "literalEquals _ s = False"

definition valueIsLiteral :: "node option \<Rightarrow> string \<Rightarrow> bool" where
  "valueIsLiteral prop s =
     (case prop of
        None \<Rightarrow> False
      | Some p \<Rightarrow> literalEquals (value_of p) s)"

text \<open>The callback of \<open>conditions.some\<close>, for the field name \<open>name\<close>.\<close>

fun conditionHasField :: "string \<Rightarrow> node option \<Rightarrow> error + bool" where
  "conditionHasField name (Some (ObjectExpression properties)) =
     (case find_e (keyIs ''field'') properties of
        Inl e \<Rightarrow> Inl e
      | Inr fieldProperty \<Rightarrow> Inr (valueIsLiteral fieldProperty name))"
| "conditionHasField name _ = Inr False"

text \<open>
  The argument is \<open>None\<close> for a value that is falsy or not an array, and the elements
  otherwise. Both scans run, the second one also when the first found nothing.
\<close>

fun conditionsArrayHasRequired :: "node option list option \<Rightarrow> error + bool" where
  "conditionsArrayHasRequired None = Inr False"
| "conditionsArrayHasRequired (Some conditions) =
     (case some_e (conditionHasField ''status'') conditions of
        Inl e \<Rightarrow> Inl e
      | Inr hasStatusCondition \<Rightarrow>
          (case some_e (conditionHasField ''dental_laboratory'') conditions of
             Inl e \<Rightarrow> Inl e
           | Inr hasDentalLabCondition \<Rightarrow>
               Inr (hasStatusCondition \<and> hasDentalLabCondition)))"

text \<open>
  \<open>p && p.value && p.value.type === 'ArrayExpression'\<close>: the elements of the array the
  found property holds, if it holds one.
\<close>

fun arrayElements :: "node option \<Rightarrow> node option list option" where
  "arrayElements (Some (Property k (ArrayExpression elements))) = Some elements"
| "arrayElements _ = None"

text \<open>
  \<open>p && p.value && p.value.type === 'ObjectExpression'\<close>: the properties of the object
  the found property holds, if it holds one.
\<close>

fun objectProperties :: "node option \<Rightarrow> node list option" where
  "objectProperties (Some (Property k (ObjectExpression properties))) = Some properties"
| "objectProperties _ = None"

text \<open>The callback of \<open>groupsProperty.value.elements.some\<close>.\<close>

fun groupHasRequired :: "node option \<Rightarrow> error + bool" where
  "groupHasRequired (Some (ObjectExpression properties)) =
     (case find_e (keyIs ''conjunction'') properties of
        Inl e \<Rightarrow> Inl e
      | Inr conjunctionProperty \<Rightarrow>
          if valueIsLiteral conjunctionProperty ''AND'' then
            (case find_e (keyIs ''conditions'') properties of
               Inl e \<Rightarrow> Inl e
             | Inr groupConditionsProperty \<Rightarrow>
                 (case arrayElements groupConditionsProperty of
                    Some elements \<Rightarrow> conditionsArrayHasRequired (Some elements)
                  | None \<Rightarrow> Inr False))
          else Inr False)"
| "groupHasRequired _ = Inr False"

text \<open>
  The part of \<open>hasRequiredConditions\<close> that works on \<open>filterProperty.value.properties\<close>:
  the top-level \<open>conditions\<close> first, the \<open>groups\<close> when they do not satisfy the requirement.
\<close>

definition filterHasRequired :: "node list \<Rightarrow> error + bool" where
  "filterHasRequired properties =
     (case find_e (keyIs ''conditions'') properties of
        Inl e \<Rightarrow> Inl e
      | Inr conditionsProperty \<Rightarrow>
          (case (case arrayElements conditionsProperty of
                   Some elements \<Rightarrow> conditionsArrayHasRequired (Some elements)
                 | None \<Rightarrow> Inr False) of
             Inl e \<Rightarrow> Inl e
           | Inr topLevel \<Rightarrow>
               if topLevel then Inr True
               else
                 (case find_e (keyIs ''groups'') properties of
                    Inl e \<Rightarrow> Inl e
                  | Inr groupsProperty \<Rightarrow>
                      (case arrayElements groupsProperty of
                         None \<Rightarrow> Inr False
                       | Some elements \<Rightarrow> some_e groupHasRequired elements))))"

text \<open>
  \<open>hasRequiredConditions(node)\<close>: \<open>node\<close> is the value of an \<open>entityQuery\<close> property (or
  \<open>undefined\<close>); the filter is looked up under \<open>__args.filter\<close>.
\<close>

fun hasRequiredConditions :: "node option \<Rightarrow> error + bool" where
  "hasRequiredConditions (Some (ObjectExpression properties)) =
     (case find_e (keyIs ''__args'') properties of
        Inl e \<Rightarrow> Inl e
      | Inr argsProperty \<Rightarrow>
          (case objectProperties argsProperty of
             None \<Rightarrow> Inr False
           | Some argsProperties \<Rightarrow>
               (case find_e (keyIs ''filter'') argsProperties of
                  Inl e \<Rightarrow> Inl e
                | Inr filterProperty \<Rightarrow>
                    (case objectProperties filterProperty of
                       None \<Rightarrow> Inr False
                     | Some filterProperties \<Rightarrow> filterHasRequired filterProperties))))"
| "hasRequiredConditions _ = Inr False"

text \<open>
  \<open>context.report\<close> hands a diagnostic to the linter; the sink is the list of the
  diagnostics reported so far.
\<close>

definition report :: "diagnostic \<Rightarrow> diagnostic list \<Rightarrow> diagnostic list" where
  "report d sink = sink @ [d]"

definition entityQueryMessage :: string where
  "entityQueryMessage = ''Entity queries must have the required \"status\" and \"dental_laboratory\" conditions either at the top level or in a group with AND conjunction.''"

fun isEntityQuery :: "node \<Rightarrow> bool" where
  "isEntityQuery (Property k v) = (is_Identifier k \<and> name_of k = Some ''entityQuery'')"
| "isEntityQuery _ = False"

fun isObjectExpression :: "node option \<Rightarrow> bool" where
  "isObjectExpression (Some (ObjectExpression properties)) = True"
| "isObjectExpression _ = False"

text \<open>The visitor \<open>Property(node)\<close>.\<close>

definition Property_visit :: "node \<Rightarrow> diagnostic list \<Rightarrow> error + diagnostic list" where
  "Property_visit n sink =
     (if isEntityQuery n \<and> isObjectExpression (value_of n) then
        (case hasRequiredConditions (value_of n) of
           Inl e \<Rightarrow> Inl e
         | Inr ok \<Rightarrow>
             Inr (if \<not> ok then report \<lparr>node = n, message = entityQueryMessage\<rparr> sink
                  else sink))
      else Inr sink)"

text \<open>
  The callback \<open>prop => prop.key && prop.key.name === name\<close> of the visitor
  \<open>VariableDeclarator\<close>; here \<open>prop.key\<close> is guarded.
\<close>

definition keyNamed :: "string \<Rightarrow> node \<Rightarrow> bool" where
  "keyNamed name prop =
     (case key_of prop of
        None \<Rightarrow> False
      | Some k \<Rightarrow> name_of k = Some name)"

text \<open>
  \<open>node.id && node.id.type === 'ObjectPattern' && node.id.properties &&
  node.id.properties.some(...)\<close>
\<close>

fun destructuresEntityQuery :: "node \<Rightarrow> bool" where
  "destructuresEntityQuery (VariableDeclarator (ObjectPattern properties) init) =
     list_ex (keyNamed ''entityQuery'') properties"
| "destructuresEntityQuery _ = False"

text \<open>
  \<open>node.init\<close> is an \<open>AwaitExpression\<close> whose argument is a \<open>CallExpression\<close> with at
  least one argument: \<open>arguments[0]\<close>.
\<close>

fun awaitedQueryArg :: "node \<Rightarrow> node option" where
  "awaitedQueryArg (VariableDeclarator i (Some (AwaitExpression (CallExpression callee (queryArg # rest) tp)))) =
     Some queryArg"
| "awaitedQueryArg _ = None"

fun propertiesOfObject :: "node option \<Rightarrow> node list option" where
  "propertiesOfObject (Some (ObjectExpression properties)) = Some properties"
| "propertiesOfObject _ = None"

text \<open>The visitor \<open>VariableDeclarator(node)\<close>.\<close>

definition VariableDeclarator_visit :: "node \<Rightarrow> diagnostic list \<Rightarrow> error + diagnostic list" where
  "VariableDeclarator_visit n sink =
     (if destructuresEntityQuery n then
        (case propertiesOfObject (awaitedQueryArg n) of
           None \<Rightarrow> Inr sink
         | Some properties \<Rightarrow>
             (case find (keyNamed ''entityQuery'') properties of
                None \<Rightarrow> Inr sink
              | Some entityQueryProp \<Rightarrow>
                  (case hasRequiredConditions (value_of entityQueryProp) of
                     Inl e \<Rightarrow> Inl e
                   | Inr ok \<Rightarrow>
                       Inr (if \<not> ok then report \<lparr>node = n, message = entityQueryMessage\<rparr> sink
                            else sink))))
      else Inr sink)"

section \<open>The rule require-generic-props\<close>

definition genericPropsMessage :: string where
  "genericPropsMessage = ''The component$ call must have generic type parameters defining the props.''"

text \<open>
  \<open>arrowFunction && arrowFunction.type === 'ArrowFunctionExpression' &&
  arrowFunction.params.length > 0\<close>, for \<open>arrowFunction = node.arguments[0]\<close>.
\<close>

fun firstIsArrowWithParams :: "node list \<Rightarrow> bool" where
  "firstIsArrowWithParams (ArrowFunctionExpression params # rest) = (length params > 0)"
| "firstIsArrowWithParams _ = False"

text \<open>
  The visitor \<open>CallExpression(node)\<close>. The linter calls it on call expressions; on a
  node without \<open>callee\<close> the read of \<open>node.callee.type\<close> throws.
\<close>

fun CallExpression_visit :: "node \<Rightarrow> diagnostic list \<Rightarrow> error + diagnostic list" where
  "CallExpression_visit (CallExpression callee arguments typeParameters) sink =
     Inr (if is_Identifier callee \<and> name_of callee = Some ''component$'' then
            (if firstIsArrowWithParams arguments then
               (if typeParameters = None then
                  report \<lparr>node = CallExpression callee arguments typeParameters,
                          message = genericPropsMessage\<rparr> sink
                else sink)
             else sink)
          else sink)"
| "CallExpression_visit _ sink = Inl TypeError"

section \<open>The rule no-direct-scss-imports\<close>

definition scssMessage :: string where
  "scssMessage = ''Avoid direct imports of SCSS files in component libraries in Qwik. Use classes instead and import the SCSS file in the global SCSS file.''"

text \<open>
  \<open>String.prototype.endsWith\<close> without a position: the last \<open>searchString.length\<close>
  characters of the string are compared with \<open>searchString\<close>; a longer \<open>searchString\<close>
  gives \<open>false\<close>.
\<close>

definition endsWith :: "string \<Rightarrow> string \<Rightarrow> bool" where
  "endsWith s searchString =
     (length searchString \<le> length s \<and>
      drop (length s - length searchString) s = searchString)"

text \<open>
  The visitor \<open>ImportDeclaration(node)\<close>. The linter calls it on import declarations;
  on a node without \<open>source\<close> the read of \<open>node.source.value\<close> throws.
\<close>

fun ImportDeclaration_visit :: "node \<Rightarrow> diagnostic list \<Rightarrow> error + diagnostic list" where
  "ImportDeclaration_visit (ImportDeclaration importPath) sink =
     Inr (if endsWith importPath ''.scss'' \<or> endsWith importPath ''.css'' then
            report \<lparr>node = ImportDeclaration importPath, message = scssMessage\<rparr> sink
          else sink)"
| "ImportDeclaration_visit _ sink = Inl TypeError"

section \<open>The rule require-document-head\<close>

text \<open>
  What the rule reads from \<open>context\<close>: \<open>getFilename()\<close>, \<open>options[0]\<close> (absent, or an
  object whose \<open>excludedFiles\<close> may be absent) and \<open>getSourceCode().ast\<close>.
\<close>

record rule_options =
  excludedFiles :: "string list option"

record rule_context =
  filename :: string
  options0 :: "rule_options option"
  ast :: node

definition documentHeadMessage :: string where
  "documentHeadMessage = ''Every route file must export a DocumentHead constant.''"

text \<open>
  \<open>const options = context.options[0] || {}; const excludedFiles =
  options.excludedFiles || [];\<close>
\<close>

definition excludedFilesOf :: "rule_context \<Rightarrow> string list" where
  "excludedFilesOf ctx =
     (case options0 ctx of
        None \<Rightarrow> []
      | Some opts \<Rightarrow> (case excludedFiles opts of None \<Rightarrow> [] | Some ps \<Rightarrow> ps))"

text \<open>
  The regular expressions are the engine's, not the plugin's: \<open>regExp pattern\<close> stands for
  \<open>new RegExp(pattern)\<close>, which throws a \<open>SyntaxError\<close> (\<open>None\<close>) on a pattern that is not
  a regular expression and otherwise gives a matcher, whose \<open>test\<close> is a function of the
  string. The callback of \<open>excludedFiles.some\<close>:
\<close>

definition patternMatches ::
  "(string \<Rightarrow> (string \<Rightarrow> bool) option) \<Rightarrow> string \<Rightarrow> string \<Rightarrow> error + bool" where
  "patternMatches regExp filePath pattern =
     (case regExp pattern of
        None \<Rightarrow> Inl SyntaxError
      | Some test \<Rightarrow> Inr (test filePath))"

definition isExcluded ::
  "(string \<Rightarrow> (string \<Rightarrow> bool) option) \<Rightarrow> string \<Rightarrow> string list \<Rightarrow> error + bool" where
  "isExcluded regExp filePath patterns = some_e (patternMatches regExp filePath) patterns"

text \<open>
  The callback of \<open>declarations.some\<close>: \<open>declaration.id.name === 'head' &&
  declaration.init && declaration.init.type === 'ArrowFunctionExpression'\<close>.
\<close>

fun id_of :: "node \<Rightarrow> node option" where
  "id_of (VariableDeclarator i init) = Some i"
| "id_of (FunctionDeclaration i params) = Some i"
| "id_of _ = None"

fun init_of :: "node \<Rightarrow> node option" where
  "init_of (VariableDeclarator i init) = init"
| "init_of _ = None"

fun isArrowFunction :: "node option \<Rightarrow> bool" where
  "isArrowFunction (Some (ArrowFunctionExpression params)) = True"
| "isArrowFunction _ = False"

definition declaresHead :: "node \<Rightarrow> error + bool" where
  "declaresHead declaration =
     (case id_of declaration of
        None \<Rightarrow> Inl TypeError
      | Some i \<Rightarrow> Inr (name_of i = Some ''head'' \<and> isArrowFunction (init_of declaration)))"

text \<open>
  The callback of \<open>body.some\<close>: \<open>node.type === 'ExportNamedDeclaration' &&
  node.declaration && node.declaration.declarations && ...some(...)\<close>. Only a
  \<open>VariableDeclaration\<close> has \<open>declarations\<close>.
\<close>

fun exportsHead :: "node \<Rightarrow> error + bool" where
  "exportsHead (ExportNamedDeclaration (Some (VariableDeclaration declarations))) =
     some_e declaresHead declarations"
| "exportsHead _ = Inr False"

fun body_of :: "node \<Rightarrow> node list option" where
  "body_of (Program body) = Some body"
| "body_of _ = None"

text \<open>The visitor \<open>Program(node)\<close>; it scans \<open>context.getSourceCode().ast.body\<close>.\<close>

definition Program_visit ::
  "rule_context \<Rightarrow> node \<Rightarrow> diagnostic list \<Rightarrow> error + diagnostic list" where
  "Program_visit ctx n sink =
     (case body_of (ast ctx) of
        None \<Rightarrow> Inl TypeError
      | Some body \<Rightarrow>
          (case some_e exportsHead body of
             Inl e \<Rightarrow> Inl e
           | Inr hasDocumentHeadExport \<Rightarrow>
               Inr (if \<not> hasDocumentHeadExport then
                      report \<lparr>node = n, message = documentHeadMessage\<rparr> sink
                    else sink)))"

text \<open>
  \<open>create(context)\<close>: the table of visitors, empty for an excluded file and holding
  \<open>Program\<close> otherwise.
\<close>

datatype visitors = NoVisitors | ProgramVisitor

definition create_require_document_head ::
  "(string \<Rightarrow> (string \<Rightarrow> bool) option) \<Rightarrow> rule_context \<Rightarrow> error + visitors" where
  "create_require_document_head regExp ctx =
     (case isExcluded regExp (filename ctx) (excludedFilesOf ctx) of
        Inl e \<Rightarrow> Inl e
      | Inr excluded \<Rightarrow> Inr (if excluded then NoVisitors else ProgramVisitor))"

text \<open>
  The linter calls \<open>create\<close> once for a file and then the visitors of the table it got,
  \<open>Program\<close> once, on the root of the tree.
\<close>

definition lint_require_document_head ::
  "(string \<Rightarrow> (string \<Rightarrow> bool) option) \<Rightarrow> rule_context \<Rightarrow> error + diagnostic list" where
  "lint_require_document_head regExp ctx =
     (case create_require_document_head regExp ctx of
        Inl e \<Rightarrow> Inl e
      | Inr NoVisitors \<Rightarrow> Inr []
      | Inr ProgramVisitor \<Rightarrow> Program_visit ctx (ast ctx) [])"

section \<open>The notions of the specification\<close>

subsection \<open>Object literals of the data model\<close>

text \<open>
  The data model takes an Object Literal to be a set of key-value properties with unique
  keys. \<open>plainProperties\<close> says so of a list of properties: each is a \<open>Property\<close>, and
  no identifier occurs twice as a key. \<open>plain\<close> says it of every object literal inside a
  literal (through property values and array elements).
\<close>

fun isProperty :: "node \<Rightarrow> bool" where
  "isProperty (Property k v) = True"
| "isProperty _ = False"

fun keyNames :: "node \<Rightarrow> string list" where
  "keyNames (Property (Identifier n) v) = [n]"
| "keyNames _ = []"

definition plainProperties :: "node list \<Rightarrow> bool" where
  "plainProperties ps \<longleftrightarrow> list_all isProperty ps \<and> distinct (concat (map keyNames ps))"

fun plain :: "node \<Rightarrow> bool" where
  "plain (ObjectExpression ps) = (plainProperties ps \<and> list_all plain ps)"
| "plain (Property k v) = plain v"
| "plain (ArrayExpression es) = list_all (\<lambda>e. case e of None \<Rightarrow> True | Some n \<Rightarrow> plain n) es"
| "plain _ = True"

text \<open>
  The properties of an Object Literal (none for anything else), and the values of the
  properties of a list whose key is the identifier \<open>name\<close>.
\<close>

fun objectMembers :: "node option \<Rightarrow> node list" where
  "objectMembers (Some (ObjectExpression ps)) = ps"
| "objectMembers _ = []"

definition propertyValues :: "string \<Rightarrow> node list \<Rightarrow> node list" where
  "propertyValues name ps = [v. Property k v \<leftarrow> ps, k = Identifier name]"

text \<open>The element lists of the Array Literals among some values.\<close>

definition arrays :: "node list \<Rightarrow> node option list list" where
  "arrays vs = [es. ArrayExpression es \<leftarrow> vs]"

subsection \<open>Compliance of a Query Filter Literal\<close>

text \<open>
  An element names a field when it is an Object Literal with a \<open>field\<close> property whose
  literal value is the name. A condition set satisfies the requirement when some element
  names \<open>status\<close> and some element names \<open>dental_laboratory\<close>.
\<close>

definition namesField :: "string \<Rightarrow> node option \<Rightarrow> bool" where
  "namesField name element \<longleftrightarrow>
     Literal (StringValue name) \<in> set (propertyValues ''field'' (objectMembers element))"

definition satisfiesRequirement :: "node option list \<Rightarrow> bool" where
  "satisfiesRequirement es \<longleftrightarrow>
     (\<exists>e\<in>set es. namesField ''status'' e) \<and> (\<exists>e\<in>set es. namesField ''dental_laboratory'' e)"

text \<open>
  The condition sets of a filter: its own top-level \<open>conditions\<close> array, and the
  \<open>conditions\<close> array of each element of its \<open>groups\<close> array whose \<open>conjunction\<close> is the
  literal \<open>"AND"\<close>. The filter is compliant when one of them satisfies the requirement.
\<close>

definition groupConditionSets :: "node option \<Rightarrow> node option list list" where
  "groupConditionSets g =
     (if Literal (StringValue ''AND'') \<in> set (propertyValues ''conjunction'' (objectMembers g))
      then arrays (propertyValues ''conditions'' (objectMembers g)) else [])"

definition conditionSets :: "node \<Rightarrow> node option list list" where
  "conditionSets F =
     arrays (propertyValues ''conditions'' (objectMembers (Some F))) @
     [es. gs \<leftarrow> arrays (propertyValues ''groups'' (objectMembers (Some F))),
          g \<leftarrow> gs, es \<leftarrow> groupConditionSets g]"

definition isCompliant :: "node \<Rightarrow> bool" where
  "isCompliant F \<longleftrightarrow> (\<exists>es\<in>set (conditionSets F). satisfiesRequirement es)"

subsection \<open>The filter of an entity query\<close>

text \<open>
  The Query Filter Literal of an entity query \<open>Q\<close> is found by descending the path
  \<open>__args.filter\<close>; a missing or malformed step leaves no filter. The entity query is
  compliant when a filter is found and is compliant.
\<close>

definition extractedFilters :: "node \<Rightarrow> node list" where
  "extractedFilters Q =
     [F. A \<leftarrow> propertyValues ''__args'' (objectMembers (Some Q)),
         F \<leftarrow> propertyValues ''filter'' (objectMembers (Some A))]"

definition entityQueryCompliant :: "node \<Rightarrow> bool" where
  "entityQueryCompliant Q \<longleftrightarrow> (\<exists>F\<in>set (extractedFilters Q). isCompliant F)"

text \<open>
  The object literals on the path are those of the data model: the entity query, its
  \<open>__args\<close> and everything inside its \<open>filter\<close>.
\<close>

definition plainEntityQuery :: "node \<Rightarrow> bool" where
  "plainEntityQuery Q \<longleftrightarrow>
     plainProperties (objectMembers (Some Q)) \<and>
     (\<forall>A\<in>set (propertyValues ''__args'' (objectMembers (Some Q))).
        plainProperties (objectMembers (Some A)) \<and>
        (\<forall>F\<in>set (propertyValues ''filter'' (objectMembers (Some A))). plain F))"

subsection \<open>Function arguments of \<open>component$\<close>\<close>

text \<open>
  A function expression that declares at least one parameter; a call that lacks type
  arguments and whose function-expression argument declares one; and an argument list
  whose first argument is an arrow function expression that declares one.
\<close>

fun declaresParameter :: "node \<Rightarrow> bool" where
  "declaresParameter (ArrowFunctionExpression params) = (params \<noteq> [])"
| "declaresParameter (FunctionExpression params) = (params \<noteq> [])"
| "declaresParameter _ = False"

fun functionArgumentDeclaresParameter :: "node list \<Rightarrow> bool" where
  "functionArgumentDeclaresParameter (f # rest) = declaresParameter f"
| "functionArgumentDeclaresParameter [] = False"

definition functionNeedsTypeArguments :: "node list \<Rightarrow> node option \<Rightarrow> bool" where
  "functionNeedsTypeArguments arguments typeArguments \<longleftrightarrow>
     typeArguments = None \<and> functionArgumentDeclaresParameter arguments"

fun arrowDeclaresParameter :: "node list \<Rightarrow> bool" where
  "arrowDeclaresParameter (ArrowFunctionExpression params # rest) = (params \<noteq> [])"
| "arrowDeclaresParameter _ = False"

subsection \<open>Exports of \<open>head\<close>\<close>

text \<open>
  The bindings a top-level statement exports by name, and whether one of them binds
  \<open>head\<close> to a function expression (of either kind), or to an arrow function expression.
  In a tree of the parser, the \<open>declarations\<close> of a \<open>VariableDeclaration\<close> are
  \<open>VariableDeclarator\<close> nodes (\<open>wellFormedExports\<close>). \<open>headExports\<close> collects what a
  file exports under the name \<open>head\<close>: bindings and function declarations.
\<close>

fun isFunctionExpression :: "node option \<Rightarrow> bool" where
  "isFunctionExpression (Some (ArrowFunctionExpression params)) = True"
| "isFunctionExpression (Some (FunctionExpression params)) = True"
| "isFunctionExpression _ = False"

fun exportedBindings :: "node \<Rightarrow> node list" where
  "exportedBindings (ExportNamedDeclaration (Some (VariableDeclaration declarations))) = declarations"
| "exportedBindings _ = []"

definition exportsHeadFunction :: "node list \<Rightarrow> bool" where
  "exportsHeadFunction body \<longleftrightarrow>
     (\<exists>stmt\<in>set body. \<exists>d\<in>set (exportedBindings stmt).
        id_of d = Some (Identifier ''head'') \<and> isFunctionExpression (init_of d))"

definition exportsHeadArrow :: "node list \<Rightarrow> bool" where
  "exportsHeadArrow body \<longleftrightarrow>
     (\<exists>stmt\<in>set body. \<exists>d\<in>set (exportedBindings stmt).
        id_of d = Some (Identifier ''head'') \<and> isArrowFunction (init_of d))"

fun isVariableDeclarator :: "node \<Rightarrow> bool" where
  "isVariableDeclarator (VariableDeclarator i init) = True"
| "isVariableDeclarator _ = False"

definition wellFormedExports :: "node list \<Rightarrow> bool" where
  "wellFormedExports body \<longleftrightarrow>
     (\<forall>stmt\<in>set body. list_all isVariableDeclarator (exportedBindings stmt))"

fun headExportsOf :: "node \<Rightarrow> node list" where
  "headExportsOf (ExportNamedDeclaration (Some (VariableDeclaration declarations))) =
     filter (\<lambda>d. id_of d = Some (Identifier ''head'')) declarations"
| "headExportsOf (ExportNamedDeclaration (Some (FunctionDeclaration i params))) =
     (if i = Identifier ''head'' then [FunctionDeclaration i params] else [])"
| "headExportsOf _ = []"

definition headExports :: "node list \<Rightarrow> node list" where
  "headExports body = concat (map headExportsOf body)"

section \<open>Example inputs\<close>

subsection \<open>Entity queries\<close>

abbreviation fieldCondition :: "string \<Rightarrow> string \<Rightarrow> node" where
  "fieldCondition name v \<equiv>
     ObjectExpression [Property (Identifier ''field'') (Literal (StringValue name)),
                       Property (Identifier ''value'') (Literal (StringValue v))]"

text \<open>
  \<open>{ conditions: [{field: "status", value: "open"}, {field: "dental_laboratory", value: "X"}] }\<close>
\<close>

abbreviation scenario1 :: "node list" where
  "scenario1 \<equiv>
     [Property (Identifier ''conditions'')
        (ArrayExpression [Some (fieldCondition ''status'' ''open''),
                          Some (fieldCondition ''dental_laboratory'' ''X'')])]"

text \<open>\<open>{ groups: [{conjunction: "AND", conditions: [{field: "status", value: "open"}]}] }\<close>\<close>

abbreviation scenario2 :: "node list" where
  "scenario2 \<equiv>
     [Property (Identifier ''groups'')
        (ArrayExpression
           [Some (ObjectExpression
              [Property (Identifier ''conjunction'') (Literal (StringValue ''AND'')),
               Property (Identifier ''conditions'')
                 (ArrayExpression [Some (fieldCondition ''status'' ''open'')])])])]"

text \<open>\<open>{ filter: F }\<close> and \<open>{ __args: { filter: F } }\<close>\<close>

abbreviation argsWith :: "node list \<Rightarrow> node list" where
  "argsWith filterProperties \<equiv>
     [Property (Identifier ''filter'') (ObjectExpression filterProperties)]"

abbreviation queryWith :: "node list \<Rightarrow> node list" where
  "queryWith filterProperties \<equiv>
     [Property (Identifier ''__args'') (ObjectExpression (argsWith filterProperties))]"

text \<open>\<open>const { entityQuery } = await query(argument)\<close>\<close>

abbreviation awaitedQuery :: "node list \<Rightarrow> node" where
  "awaitedQuery argument \<equiv>
     VariableDeclarator (ObjectPattern [Property (Identifier ''entityQuery'') (Identifier ''entityQuery'')])
       (Some (AwaitExpression
          (CallExpression (Identifier ''query'') [ObjectExpression argument] None)))"

text \<open>\<open>{ ...base, __args: { filter: { conditions: [...] } } }\<close>\<close>

abbreviation spreadQuery :: "node" where
  "spreadQuery \<equiv>
     ObjectExpression (SpreadElement (Identifier ''base'') # queryWith scenario1)"

text \<open>\<open>{ __args: { ...base, filter: { groups: [...] } } }\<close>, with the filter of scenario 2\<close>

abbreviation spreadArgsQuery :: "node" where
  "spreadArgsQuery \<equiv>
     ObjectExpression
       [Property (Identifier ''__args'')
          (ObjectExpression (SpreadElement (Identifier ''base'') # argsWith scenario2))]"

subsection \<open>Calls of \<open>component$\<close>\<close>

text \<open>\<open>component$<typeArguments>(arguments)\<close>\<close>

abbreviation componentCall :: "node list \<Rightarrow> node option \<Rightarrow> node" where
  "componentCall arguments typeArguments \<equiv>
     CallExpression (Identifier ''component$'') arguments typeArguments"

subsection \<open>Route files\<close>

text \<open>\<open>export const head = init\<close>, \<open>export function head() {}\<close> and a file with its options\<close>

abbreviation headExport :: "node option \<Rightarrow> node" where
  "headExport init \<equiv>
     ExportNamedDeclaration (Some (VariableDeclaration [VariableDeclarator (Identifier ''head'') init]))"

abbreviation headFunctionDeclaration :: node where
  "headFunctionDeclaration \<equiv>
     ExportNamedDeclaration (Some (FunctionDeclaration (Identifier ''head'') []))"

abbreviation routeFile :: "string \<Rightarrow> string list option \<Rightarrow> node list \<Rightarrow> rule_context" where
  "routeFile path patterns body \<equiv>
     \<lparr>filename = path, options0 = Some \<lparr>excludedFiles = patterns\<rparr>, ast = Program body\<rparr>"

subsection \<open>A regular-expression engine for the examples\<close>

text \<open>
  The statements below hold for every engine. The examples use this one, which agrees with
  the ECMAScript engine on the patterns they use: a pattern that starts with the
  quantifier \<open>*\<close> is rejected (nothing to repeat), and a pattern of letters matches the
  strings that contain it.
\<close>

definition exampleRegExp :: "string \<Rightarrow> (string \<Rightarrow> bool) option" where
  "exampleRegExp pattern = (if take 1 pattern = ''*'' then None else Some (sublist pattern))"

section \<open>Properties\<close>

subsection \<open>Looking a property up\<close>

lemma propertyValues_Nil [simp]: "propertyValues name [] = []"
  by (simp add: propertyValues_def)

lemma propertyValues_Cons:
  "propertyValues name (p # ps) =
     (if key_of p = Some (Identifier name) then the (value_of p) # propertyValues name ps
      else propertyValues name ps)"
  by (cases p) (auto simp: propertyValues_def)

lemma keyIs_Property:
  "isProperty p \<Longrightarrow> keyIs name p = Inr (key_of p = Some (Identifier name))"
  apply (cases p; simp add: keyIs_def)
  subgoal for k v by (cases k) auto
  done

lemma find_e_keyIs:
  "list_all isProperty ps \<Longrightarrow>
   find_e (keyIs name) ps = Inr (find (\<lambda>p. key_of p = Some (Identifier name)) ps)"
  by (induction ps) (auto simp: keyIs_Property)

lemma find_key_propertyValues:
  "list_all isProperty ps \<Longrightarrow>
   find (\<lambda>p. key_of p = Some (Identifier name)) ps =
     (case propertyValues name ps of [] \<Rightarrow> None | v # vs \<Rightarrow> Some (Property (Identifier name) v))"
proof (induction ps)
  case Nil
  then show ?case by simp
next
  case (Cons p ps)
  then show ?case by (cases p) (auto simp: propertyValues_Cons)
qed

lemma propertyValues_keyNames:
  "v \<in> set (propertyValues name ps) \<Longrightarrow> name \<in> set (concat (map keyNames ps))"
proof (induction ps)
  case Nil
  then show ?case by simp
next
  case (Cons p ps)
  then show ?case
    by (cases p) (auto simp: propertyValues_Cons split: if_splits)
qed

lemma propertyValues_unique:
  "distinct (concat (map keyNames ps)) \<Longrightarrow>
   propertyValues name ps = [] \<or> (\<exists>v. propertyValues name ps = [v])"
proof (induction ps)
  case Nil
  then show ?case by simp
next
  case (Cons p ps)
  show ?case
  proof (cases "key_of p = Some (Identifier name)")
    case True
    then obtain v where p: "p = Property (Identifier name) v"
      by (cases p) auto
    with Cons.prems have "name \<notin> set (concat (map keyNames ps))"
      by simp
    then have "propertyValues name ps = []"
      using propertyValues_keyNames [of _ name ps] by (cases "propertyValues name ps") auto
    with p show ?thesis by (simp add: propertyValues_Cons)
  next
    case False
    with Cons show ?thesis by (simp add: propertyValues_Cons)
  qed
qed

lemma lookup_plain:
  assumes "plainProperties ps"
  shows "(propertyValues name ps = [] \<and> find_e (keyIs name) ps = Inr None) \<or>
         (\<exists>v. propertyValues name ps = [v] \<and>
              find_e (keyIs name) ps = Inr (Some (Property (Identifier name) v)))"
proof -
  from assms have all: "list_all isProperty ps" and dist: "distinct (concat (map keyNames ps))"
    by (simp_all add: plainProperties_def)
  from propertyValues_unique [OF dist, of name] show ?thesis
    by (auto simp: find_e_keyIs [OF all] find_key_propertyValues [OF all])
qed

lemma propertyValues_member:
  "v \<in> set (propertyValues name ps) \<Longrightarrow> Property (Identifier name) v \<in> set ps"
proof (induction ps)
  case Nil
  then show ?case by simp
next
  case (Cons p ps)
  then show ?case
    by (cases p) (auto simp: propertyValues_Cons split: if_splits)
qed

lemma plain_value:
  "list_all plain ps \<Longrightarrow> v \<in> set (propertyValues name ps) \<Longrightarrow> plain v"
  using propertyValues_member [of v name ps] by (auto simp: list_all_iff)

subsection \<open>The validator on literals of the data model\<close>

lemma some_e_total:
  "(\<And>x. x \<in> set xs \<Longrightarrow> f x = Inr (g x)) \<Longrightarrow> some_e f xs = Inr (\<exists>x\<in>set xs. g x)"
  by (induction xs) auto

lemma conditionHasField_plain:
  assumes "case e of None \<Rightarrow> True | Some n \<Rightarrow> plain n"
  shows "conditionHasField name e = Inr (namesField name e)"
proof (cases e)
  case None
  then show ?thesis by (simp add: namesField_def)
next
  case (Some n)
  show ?thesis
  proof (cases n)
    case (ObjectExpression ps)
    with Some assms have "plainProperties ps" by simp
    from lookup_plain [OF this, of "''field''"] show ?thesis
    proof (elim disjE conjE exE)
      assume "propertyValues ''field'' ps = []" "find_e (keyIs ''field'') ps = Inr None"
      then show ?thesis
        using Some ObjectExpression by (simp add: namesField_def valueIsLiteral_def)
    next
      fix v
      assume "propertyValues ''field'' ps = [v]"
        "find_e (keyIs ''field'') ps = Inr (Some (Property (Identifier ''field'') v))"
      then show ?thesis
        using Some ObjectExpression
        by (cases v) (auto simp: namesField_def valueIsLiteral_def)
    qed
  qed (use Some in \<open>simp_all add: namesField_def\<close>)
qed

lemma conditionsArrayHasRequired_plain:
  assumes "list_all (\<lambda>e. case e of None \<Rightarrow> True | Some n \<Rightarrow> plain n) es"
  shows "conditionsArrayHasRequired (Some es) = Inr (satisfiesRequirement es)"
proof -
  have "\<And>name e. e \<in> set es \<Longrightarrow> conditionHasField name e = Inr (namesField name e)"
    using assms by (intro conditionHasField_plain) (simp add: list_all_iff)
  then have "\<And>name. some_e (conditionHasField name) es = Inr (\<exists>e\<in>set es. namesField name e)"
    by (intro some_e_total) simp
  then show ?thesis
    by (simp add: satisfiesRequirement_def)
qed

lemma conditionSets_groups:
  "conditionSets F =
     arrays (propertyValues ''conditions'' (objectMembers (Some F))) @
     concat (map (\<lambda>gs. concat (map groupConditionSets gs))
       (arrays (propertyValues ''groups'' (objectMembers (Some F)))))"
  by (simp add: conditionSets_def)

lemma arrays_Nil [simp]: "arrays [] = []"
  by (simp add: arrays_def)

lemma arrays_single:
  "arrays [v] = (case arrayElements (Some (Property k v)) of None \<Rightarrow> [] | Some es \<Rightarrow> [es])"
  by (cases v) (simp_all add: arrays_def)

lemma arrayElements_plain:
  "plain v \<Longrightarrow> arrayElements (Some (Property k v)) = Some es \<Longrightarrow>
   list_all (\<lambda>e. case e of None \<Rightarrow> True | Some n \<Rightarrow> plain n) es"
  by (cases v) simp_all

lemma conditionsProperty_plain:
  assumes "plainProperties ps" "list_all plain ps"
  shows "\<exists>r. find_e (keyIs ''conditions'') ps = Inr r \<and>
           (case arrayElements r of
              Some elements \<Rightarrow> conditionsArrayHasRequired (Some elements)
            | None \<Rightarrow> Inr False) =
           Inr (\<exists>es\<in>set (arrays (propertyValues ''conditions'' ps)). satisfiesRequirement es)"
  using lookup_plain [OF assms(1), of "''conditions''"]
proof (elim disjE conjE exE)
  assume "propertyValues ''conditions'' ps = []" "find_e (keyIs ''conditions'') ps = Inr None"
  then show ?thesis by simp
next
  fix v
  assume v: "propertyValues ''conditions'' ps = [v]"
    and f: "find_e (keyIs ''conditions'') ps = Inr (Some (Property (Identifier ''conditions'') v))"
  from v assms(2) have "plain v"
    using plain_value [of ps v "''conditions''"] by simp
  have "(case arrayElements (Some (Property (Identifier ''conditions'') v)) of
           Some elements \<Rightarrow> conditionsArrayHasRequired (Some elements)
         | None \<Rightarrow> Inr False) =
        Inr (\<exists>es\<in>set (arrays [v]). satisfiesRequirement es)"
  proof (cases "arrayElements (Some (Property (Identifier ''conditions'') v))")
    case None
    then show ?thesis by (simp add: arrays_single [of v "Identifier ''conditions''"])
  next
    case (Some es)
    with \<open>plain v\<close> have "list_all (\<lambda>e. case e of None \<Rightarrow> True | Some n \<Rightarrow> plain n) es"
      by (rule arrayElements_plain)
    then have "conditionsArrayHasRequired (Some es) = Inr (satisfiesRequirement es)"
      by (rule conditionsArrayHasRequired_plain)
    with Some show ?thesis by (simp add: arrays_single [of v "Identifier ''conditions''"])
  qed
  with v f show ?thesis by simp
qed

lemma groupHasRequired_plain:
  assumes "case g of None \<Rightarrow> True | Some n \<Rightarrow> plain n"
  shows "groupHasRequired g = Inr (\<exists>es\<in>set (groupConditionSets g). satisfiesRequirement es)"
proof (cases g)
  case None
  then show ?thesis by (simp add: groupConditionSets_def)
next
  case (Some n)
  show ?thesis
  proof (cases n)
    case (ObjectExpression ps)
    with Some assms have pl: "plainProperties ps" "list_all plain ps" by simp_all
    from conditionsProperty_plain [OF pl] obtain r where
      r: "find_e (keyIs ''conditions'') ps = Inr r"
        "(case arrayElements r of
            Some elements \<Rightarrow> conditionsArrayHasRequired (Some elements)
          | None \<Rightarrow> Inr False) =
         Inr (\<exists>es\<in>set (arrays (propertyValues ''conditions'' ps)). satisfiesRequirement es)"
      by blast
    from lookup_plain [OF pl(1), of "''conjunction''"] show ?thesis
    proof (elim disjE conjE exE)
      assume "propertyValues ''conjunction'' ps = []" "find_e (keyIs ''conjunction'') ps = Inr None"
      then show ?thesis
        using Some ObjectExpression by (simp add: groupConditionSets_def valueIsLiteral_def)
    next
      fix v
      assume v: "propertyValues ''conjunction'' ps = [v]"
        and f: "find_e (keyIs ''conjunction'') ps = Inr (Some (Property (Identifier ''conjunction'') v))"
      have "valueIsLiteral (Some (Property (Identifier ''conjunction'') v)) ''AND'' \<longleftrightarrow>
            v = Literal (StringValue ''AND'')"
        by (cases v) (auto simp: valueIsLiteral_def)
      with v f r show ?thesis
        using Some ObjectExpression by (auto simp: groupConditionSets_def)
    qed
  qed (use Some in \<open>simp_all add: groupConditionSets_def\<close>)
qed

lemma filterHasRequired_plain:
  assumes "plain (ObjectExpression ps)"
  shows "filterHasRequired ps = Inr (isCompliant (ObjectExpression ps))"
proof -
  from assms have pl: "plainProperties ps" "list_all plain ps" by simp_all
  from conditionsProperty_plain [OF pl] obtain r where
    r: "find_e (keyIs ''conditions'') ps = Inr r"
      "(case arrayElements r of
          Some elements \<Rightarrow> conditionsArrayHasRequired (Some elements)
        | None \<Rightarrow> Inr False) =
       Inr (\<exists>es\<in>set (arrays (propertyValues ''conditions'' ps)). satisfiesRequirement es)"
    by blast
  have groups: "\<exists>q. find_e (keyIs ''groups'') ps = Inr q \<and>
      (case arrayElements q of None \<Rightarrow> Inr False | Some elements \<Rightarrow> some_e groupHasRequired elements) =
      Inr (\<exists>gs\<in>set (arrays (propertyValues ''groups'' ps)).
             \<exists>g\<in>set gs. \<exists>es\<in>set (groupConditionSets g). satisfiesRequirement es)"
    using lookup_plain [OF pl(1), of "''groups''"]
  proof (elim disjE conjE exE)
    assume "propertyValues ''groups'' ps = []" "find_e (keyIs ''groups'') ps = Inr None"
    then show ?thesis by simp
  next
    fix v
    assume v: "propertyValues ''groups'' ps = [v]"
      and f: "find_e (keyIs ''groups'') ps = Inr (Some (Property (Identifier ''groups'') v))"
    from v pl(2) have "plain v"
      using plain_value [of ps v "''groups''"] by simp
    have "(case arrayElements (Some (Property (Identifier ''groups'') v)) of
             None \<Rightarrow> Inr False | Some elements \<Rightarrow> some_e groupHasRequired elements) =
          Inr (\<exists>gs\<in>set (arrays [v]). \<exists>g\<in>set gs. \<exists>es\<in>set (groupConditionSets g). satisfiesRequirement es)"
    proof (cases "arrayElements (Some (Property (Identifier ''groups'') v))")
      case None
      then show ?thesis by (simp add: arrays_single [of v "Identifier ''groups''"])
    next
      case (Some gs)
      with \<open>plain v\<close> have "list_all (\<lambda>e. case e of None \<Rightarrow> True | Some n \<Rightarrow> plain n) gs"
        by (rule arrayElements_plain)
      then have "some_e groupHasRequired gs =
                 Inr (\<exists>g\<in>set gs. \<exists>es\<in>set (groupConditionSets g). satisfiesRequirement es)"
        by (intro some_e_total groupHasRequired_plain) (simp add: list_all_iff)
      with Some show ?thesis by (simp add: arrays_single [of v "Identifier ''groups''"])
    qed
    with v f show ?thesis by simp
  qed
  then obtain q where
    q: "find_e (keyIs ''groups'') ps = Inr q"
      "(case arrayElements q of None \<Rightarrow> Inr False | Some elements \<Rightarrow> some_e groupHasRequired elements) =
       Inr (\<exists>gs\<in>set (arrays (propertyValues ''groups'' ps)).
              \<exists>g\<in>set gs. \<exists>es\<in>set (groupConditionSets g). satisfiesRequirement es)"
    by blast
  show ?thesis
    unfolding filterHasRequired_def isCompliant_def conditionSets_groups
    using r q by auto
qed

lemma isCompliant_not_object:
  "\<not> isObjectExpression (Some F) \<Longrightarrow> \<not> isCompliant F"
  by (cases F) (simp_all add: isCompliant_def conditionSets_def arrays_def)

lemma objectProperties_value:
  "objectProperties (Some (Property k v)) = propertiesOfObject (Some v)"
  by (cases v) simp_all

lemma filterProperty_plain:
  assumes "plainProperties aps" "\<forall>F\<in>set (propertyValues ''filter'' aps). plain F"
  shows "(case find_e (keyIs ''filter'') aps of
            Inl e \<Rightarrow> Inl e
          | Inr filterProperty \<Rightarrow>
              (case objectProperties filterProperty of
                 None \<Rightarrow> Inr False
               | Some filterProperties \<Rightarrow> filterHasRequired filterProperties)) =
         Inr (\<exists>F\<in>set (propertyValues ''filter'' aps). isCompliant F)"
  using lookup_plain [OF assms(1), of "''filter''"]
proof (elim disjE conjE exE)
  assume "propertyValues ''filter'' aps = []" "find_e (keyIs ''filter'') aps = Inr None"
  then show ?thesis by simp
next
  fix F
  assume v: "propertyValues ''filter'' aps = [F]"
    and f: "find_e (keyIs ''filter'') aps = Inr (Some (Property (Identifier ''filter'') F))"
  from v assms(2) have "plain F" by simp
  show ?thesis
  proof (cases "propertiesOfObject (Some F)")
    case None
    then have "\<not> isObjectExpression (Some F)" by (cases F) simp_all
    then have "\<not> isCompliant F" by (rule isCompliant_not_object)
    with None v f show ?thesis by (simp add: objectProperties_value)
  next
    case (Some fps)
    then have F: "F = ObjectExpression fps" by (cases F) simp_all
    with \<open>plain F\<close> have "filterHasRequired fps = Inr (isCompliant F)"
      by (simp only: filterHasRequired_plain)
    with Some v f show ?thesis by (simp add: objectProperties_value)
  qed
qed

lemma hasRequiredConditions_plain:
  assumes "plainEntityQuery Q"
  shows "hasRequiredConditions (Some Q) = Inr (\<exists>F\<in>set (extractedFilters Q). isCompliant F)"
proof (cases Q)
  case (ObjectExpression qps)
  with assms have pl: "plainProperties qps"
    and args: "\<forall>A\<in>set (propertyValues ''__args'' qps).
        plainProperties (objectMembers (Some A)) \<and>
        (\<forall>F\<in>set (propertyValues ''filter'' (objectMembers (Some A))). plain F)"
    by (simp_all add: plainEntityQuery_def)
  from lookup_plain [OF pl, of "''__args''"] show ?thesis
  proof (elim disjE conjE exE)
    assume "propertyValues ''__args'' qps = []" "find_e (keyIs ''__args'') qps = Inr None"
    then show ?thesis using ObjectExpression by (simp add: extractedFilters_def)
  next
    fix A
    assume v: "propertyValues ''__args'' qps = [A]"
      and f: "find_e (keyIs ''__args'') qps = Inr (Some (Property (Identifier ''__args'') A))"
    show ?thesis
    proof (cases "propertiesOfObject (Some A)")
      case None
      then have "objectMembers (Some A) = []" by (cases A) simp_all
      with None v f show ?thesis
        using ObjectExpression by (simp add: extractedFilters_def objectProperties_value)
    next
      case (Some aps)
      then have A: "A = ObjectExpression aps" by (cases A) simp_all
      with args v have "plainProperties aps" "\<forall>F\<in>set (propertyValues ''filter'' aps). plain F"
        by simp_all
      from filterProperty_plain [OF this] Some v f A show ?thesis
        using ObjectExpression by (simp add: extractedFilters_def objectProperties_value)
    qed
  qed
qed (simp_all add: extractedFilters_def)

lemma propertyValues_intro:
  "Property (Identifier name) v \<in> set ps \<Longrightarrow> v \<in> set (propertyValues name ps)"
proof (induction ps)
  case Nil
  then show ?case by simp
next
  case (Cons p ps)
  then show ?case by (cases p) (auto simp: propertyValues_Cons)
qed


lemma propertyValues_iff:
  "v \<in> set (propertyValues name ps) \<longleftrightarrow> Property (Identifier name) v \<in> set ps"
  using propertyValues_member propertyValues_intro by blast

lemma arrays_iff: "es \<in> set (arrays vs) \<longleftrightarrow> ArrayExpression es \<in> set vs"
proof (induction vs)
  case Nil
  then show ?case by simp
next
  case (Cons v vs)
  then show ?case by (cases v) (auto simp: arrays_def)
qed

lemma objectMembers_iff:
  "p \<in> set (objectMembers e) \<longleftrightarrow> (\<exists>ps. e = Some (ObjectExpression ps) \<and> p \<in> set ps)"
  by (induction e rule: objectMembers.induct) simp_all

lemma namesField_iff:
  "namesField name e \<longleftrightarrow>
     (\<exists>ps. e = Some (ObjectExpression ps) \<and>
           Property (Identifier ''field'') (Literal (StringValue name)) \<in> set ps)"
  by (simp add: namesField_def propertyValues_iff objectMembers_iff)

text \<open>
  Compliance of an object literal, written out over its properties.
\<close>

lemma isCompliant_iff:
  "isCompliant (ObjectExpression fps) \<longleftrightarrow>
     (\<exists>es. Property (Identifier ''conditions'') (ArrayExpression es) \<in> set fps \<and>
           satisfiesRequirement es) \<or>
     (\<exists>gs gps es.
        Property (Identifier ''groups'') (ArrayExpression gs) \<in> set fps \<and>
        Some (ObjectExpression gps) \<in> set gs \<and>
        Property (Identifier ''conjunction'') (Literal (StringValue ''AND'')) \<in> set gps \<and>
        Property (Identifier ''conditions'') (ArrayExpression es) \<in> set gps \<and>
        satisfiesRequirement es)"
  (is "?L \<longleftrightarrow> ?A \<or> ?B")
proof -
  have g: "es \<in> set (groupConditionSets g) \<longleftrightarrow>
      (\<exists>gps. g = Some (ObjectExpression gps) \<and>
         Property (Identifier ''conjunction'') (Literal (StringValue ''AND'')) \<in> set gps \<and>
         Property (Identifier ''conditions'') (ArrayExpression es) \<in> set gps)" for es g
    by (auto simp: groupConditionSets_def arrays_iff propertyValues_iff objectMembers_iff)
  show ?thesis
    unfolding isCompliant_def conditionSets_def
    by (auto simp: arrays_iff propertyValues_iff g)
qed



subsection \<open>The visitors of the entity-query rule\<close>

lemma keyNamed_Property:
  "keyNamed name p \<longleftrightarrow> (\<exists>v. p = Property (Identifier name) v)"
proof (cases p)
  case (Property k v)
  then show ?thesis by (cases k) (auto simp: keyNamed_def)
qed (simp_all add: keyNamed_def)

lemma find_keyNamed_distinct:
  "distinct (concat (map keyNames ps)) \<Longrightarrow> Property (Identifier name) v \<in> set ps \<Longrightarrow>
   find (keyNamed name) ps = Some (Property (Identifier name) v)"
proof (induction ps)
  case Nil
  then show ?case by simp
next
  case (Cons p ps)
  show ?case
  proof (cases "keyNamed name p")
    case True
    then obtain w where p: "p = Property (Identifier name) w"
      by (auto simp: keyNamed_Property)
    with Cons.prems(1) have "name \<notin> set (concat (map keyNames ps))" by simp
    then have "Property (Identifier name) v \<notin> set ps"
      using propertyValues_keyNames [OF propertyValues_intro, of name v ps] by blast
    with Cons.prems(2) p show ?thesis by (simp add: keyNamed_Property)
  next
    case False
    with Cons show ?thesis by (auto simp: keyNamed_Property)
  qed
qed

text \<open>
  On an entity query of the data model, each of the two visitors reports exactly one
  diagnostic on the node that triggers it if and only if the Query Filter Literal found
  under \<open>__args.filter\<close> is not compliant, and nothing otherwise: \<open>Property\<close> on a property
  \<open>entityQuery\<close> whose value is an object literal, \<open>VariableDeclarator\<close> on a binding that
  destructures \<open>entityQuery\<close> from an awaited call whose first argument is an object
  literal with an \<open>entityQuery\<close> property. When the path ends early, or ends in something
  that is not an object literal, the entity query is not compliant.
\<close>

lemma entity_query_rule_on_data_model:
  assumes "plainEntityQuery Q"
  shows "(isObjectExpression (Some Q) \<longrightarrow>
            Property_visit (Property (Identifier ''entityQuery'') Q) sink =
              Inr (if entityQueryCompliant Q then sink
                   else sink @ [\<lparr>node = Property (Identifier ''entityQuery'') Q,
                                 message = entityQueryMessage\<rparr>])) \<and>
         (list_ex (keyNamed ''entityQuery'') pattern \<and>
          distinct (concat (map keyNames argument)) \<and>
          Property (Identifier ''entityQuery'') Q \<in> set argument \<longrightarrow>
            VariableDeclarator_visit
              (VariableDeclarator (ObjectPattern pattern)
                 (Some (AwaitExpression
                    (CallExpression callee (ObjectExpression argument # rest) typeParameters)))) sink =
              Inr (if entityQueryCompliant Q then sink
                   else sink @ [\<lparr>node = VariableDeclarator (ObjectPattern pattern)
                                   (Some (AwaitExpression
                                      (CallExpression callee (ObjectExpression argument # rest)
                                         typeParameters))),
                                 message = entityQueryMessage\<rparr>])) \<and>
         (extractedFilters Q = [] \<or> (\<forall>F\<in>set (extractedFilters Q). \<not> isObjectExpression (Some F))
            \<longrightarrow> \<not> entityQueryCompliant Q)"
proof (intro conjI impI)
  assume "isObjectExpression (Some Q)"
  then show "Property_visit (Property (Identifier ''entityQuery'') Q) sink =
      Inr (if entityQueryCompliant Q then sink
           else sink @ [\<lparr>node = Property (Identifier ''entityQuery'') Q,
                         message = entityQueryMessage\<rparr>])"
    by (simp add: Property_visit_def hasRequiredConditions_plain [OF assms]
        entityQueryCompliant_def report_def del: hasRequiredConditions.simps)
next
  assume a: "list_ex (keyNamed ''entityQuery'') pattern \<and>
          distinct (concat (map keyNames argument)) \<and>
          Property (Identifier ''entityQuery'') Q \<in> set argument"
  then have "find (keyNamed ''entityQuery'') argument = Some (Property (Identifier ''entityQuery'') Q)"
    by (simp add: find_keyNamed_distinct)
  with a show "VariableDeclarator_visit
              (VariableDeclarator (ObjectPattern pattern)
                 (Some (AwaitExpression
                    (CallExpression callee (ObjectExpression argument # rest) typeParameters)))) sink =
              Inr (if entityQueryCompliant Q then sink
                   else sink @ [\<lparr>node = VariableDeclarator (ObjectPattern pattern)
                                   (Some (AwaitExpression
                                      (CallExpression callee (ObjectExpression argument # rest)
                                         typeParameters))),
                                 message = entityQueryMessage\<rparr>])"
    by (simp add: VariableDeclarator_visit_def hasRequiredConditions_plain [OF assms]
        entityQueryCompliant_def report_def del: hasRequiredConditions.simps)
next
  assume "extractedFilters Q = [] \<or> (\<forall>F\<in>set (extractedFilters Q). \<not> isObjectExpression (Some F))"
  then show "\<not> entityQueryCompliant Q"
    by (auto simp: entityQueryCompliant_def dest: isCompliant_not_object)
qed

lemma entity_query_rule_scenario2:
  "plainEntityQuery (ObjectExpression (queryWith scenario2)) \<and>
   isObjectExpression (Some (ObjectExpression (queryWith scenario2))) \<and>
   \<not> entityQueryCompliant (ObjectExpression (queryWith scenario2)) \<and>
   Property_visit (Property (Identifier ''entityQuery'') (ObjectExpression (queryWith scenario2))) [] =
     Inr [\<lparr>node = Property (Identifier ''entityQuery'') (ObjectExpression (queryWith scenario2)),
            message = entityQueryMessage\<rparr>] \<and>
   VariableDeclarator_visit
     (awaitedQuery [Property (Identifier ''entityQuery'') (ObjectExpression (queryWith scenario2))]) [] =
     Inr [\<lparr>node = awaitedQuery [Property (Identifier ''entityQuery'') (ObjectExpression (queryWith scenario2))],
            message = entityQueryMessage\<rparr>] \<and>
   plainEntityQuery (ObjectExpression []) \<and> extractedFilters (ObjectExpression []) = [] \<and>
   \<not> entityQueryCompliant (ObjectExpression [])"
proof -
  let ?Q = "ObjectExpression (queryWith scenario2)"
  have p: "plainEntityQuery ?Q"
    by (simp add: plainEntityQuery_def plainProperties_def propertyValues_def)
  have o: "isObjectExpression (Some ?Q)" by simp
  have n: "\<not> entityQueryCompliant ?Q"
    by (simp add: entityQueryCompliant_def extractedFilters_def isCompliant_def conditionSets_def
        groupConditionSets_def satisfiesRequirement_def namesField_def propertyValues_def arrays_def)
  have d: "list_ex (keyNamed ''entityQuery'') [Property (Identifier ''entityQuery'') (Identifier ''entityQuery'')] \<and>
           distinct (concat (map keyNames [Property (Identifier ''entityQuery'') ?Q])) \<and>
           Property (Identifier ''entityQuery'') ?Q \<in> set [Property (Identifier ''entityQuery'') ?Q]"
    by (simp add: keyNamed_def)
  have p0: "plainEntityQuery (ObjectExpression [])"
    by (simp add: plainEntityQuery_def plainProperties_def)
  have e0: "extractedFilters (ObjectExpression []) = []"
    by (simp add: extractedFilters_def)
  note t = entity_query_rule_on_data_model [OF p,
      of "[]" "[Property (Identifier ''entityQuery'') (Identifier ''entityQuery'')]"
         "[Property (Identifier ''entityQuery'') ?Q]" "Identifier ''query''" "[]" None]
  note t0 = entity_query_rule_on_data_model [OF p0, of "[]" "[]" "[]" "Identifier ''query''" "[]" None]
  from t o n d have "Property_visit (Property (Identifier ''entityQuery'') ?Q) [] =
     Inr [\<lparr>node = Property (Identifier ''entityQuery'') ?Q, message = entityQueryMessage\<rparr>]"
    by simp
  moreover from t o n d have "VariableDeclarator_visit (awaitedQuery [Property (Identifier ''entityQuery'') ?Q]) [] =
     Inr [\<lparr>node = awaitedQuery [Property (Identifier ''entityQuery'') ?Q], message = entityQueryMessage\<rparr>]"
    by simp
  moreover from t0 e0 have "\<not> entityQueryCompliant (ObjectExpression [])" by simp
  ultimately show ?thesis using p o n p0 e0 by (simp only: simp_thms)
qed

subsection \<open>Spread elements\<close>

text \<open>
  C2. The validator and the condition-set check do throw: on an object literal with a
  spread element before the property looked for, \<open>prop.key.type\<close> is read on the spread
  element, which has no \<open>key\<close>. Here the entity query is \<open>{ ...base, __args: ... }\<close>, and
  the condition is \<open>{ ...base, field: "status" }\<close>.
\<close>

theorem spread_element_throws:
  "hasRequiredConditions (Some spreadQuery) = Inl TypeError \<and>
   Property_visit (Property (Identifier ''entityQuery'') spreadQuery) [] = Inl TypeError \<and>
   conditionsArrayHasRequired
     (Some [Some (ObjectExpression [SpreadElement (Identifier ''base''),
                                    Property (Identifier ''field'') (Literal (StringValue ''status''))])]) =
     Inl TypeError"
  by (simp add: Property_visit_def keyIs_def)

text \<open>
  C3. The rule does not report on every entity query whose filter is not compliant. In
  \<open>entityQuery: { __args: { ...base, filter: F } }\<close>, with the filter \<open>F\<close> of scenario 2,
  the filter found under \<open>__args.filter\<close> lacks \<open>dental_laboratory\<close>, so one diagnostic is
  due on the triggering node. Both visitors throw instead: the lookup of \<open>filter\<close> reads
  \<open>prop.key.type\<close> on the spread element.
\<close>

theorem spread_in_args_throws_instead_of_reporting:
  "extractedFilters spreadArgsQuery = [ObjectExpression scenario2] \<and>
   \<not> entityQueryCompliant spreadArgsQuery \<and>
   isEntityQuery (Property (Identifier ''entityQuery'') spreadArgsQuery) \<and>
   isObjectExpression (Some spreadArgsQuery) \<and>
   Property_visit (Property (Identifier ''entityQuery'') spreadArgsQuery) [] = Inl TypeError \<and>
   destructuresEntityQuery
     (awaitedQuery [Property (Identifier ''entityQuery'') spreadArgsQuery]) \<and>
   VariableDeclarator_visit
     (awaitedQuery [Property (Identifier ''entityQuery'') spreadArgsQuery]) [] = Inl TypeError"
proof -
  have filters: "extractedFilters spreadArgsQuery = [ObjectExpression scenario2]"
    by (simp add: extractedFilters_def propertyValues_def)
  have "\<not> isCompliant (ObjectExpression scenario2)"
    by (simp add: isCompliant_def conditionSets_def groupConditionSets_def
        satisfiesRequirement_def namesField_def propertyValues_def arrays_def)
  with filters have verdict: "\<not> entityQueryCompliant spreadArgsQuery"
    by (simp add: entityQueryCompliant_def)
  have throws: "hasRequiredConditions (Some spreadArgsQuery) = Inl TypeError"
    by (simp add: keyIs_def)
  have trigger: "isEntityQuery (Property (Identifier ''entityQuery'') spreadArgsQuery)"
    "isObjectExpression (Some spreadArgsQuery)"
    "destructuresEntityQuery (awaitedQuery [Property (Identifier ''entityQuery'') spreadArgsQuery])"
    by (simp_all add: keyNamed_def)
  have property: "Property_visit (Property (Identifier ''entityQuery'') spreadArgsQuery) [] =
      Inl TypeError"
    using throws by (simp add: Property_visit_def del: hasRequiredConditions.simps)
  have declarator: "VariableDeclarator_visit
      (awaitedQuery [Property (Identifier ''entityQuery'') spreadArgsQuery]) [] = Inl TypeError"
    using throws
    by (simp add: VariableDeclarator_visit_def keyNamed_def del: hasRequiredConditions.simps)
  from filters verdict trigger property declarator show ?thesis
    by (simp only: simp_thms)
qed

subsection \<open>Stylesheet imports\<close>

lemma endsWith_suffix: "endsWith s t \<longleftrightarrow> suffix t s"
proof
  assume "endsWith s t"
  then have "s = take (length s - length t) s @ t"
    by (metis append_take_drop_id endsWith_def)
  then show "suffix t s" by (rule suffixI)
next
  assume "suffix t s"
  then obtain p where "s = p @ t" by (auto simp: suffix_def)
  then show "endsWith s t" by (simp add: endsWith_def)
qed

text \<open>
  C7. On an import declaration, the rule reports one diagnostic, on the declaration, if
  and only if \<open>.scss\<close> or \<open>.css\<close> is a suffix of the imported path; otherwise it reports
  nothing.
\<close>

theorem scss_import_reported_iff_suffix:
  "ImportDeclaration_visit (ImportDeclaration importPath) sink =
     Inr (if suffix ''.scss'' importPath \<or> suffix ''.css'' importPath
          then sink @ [\<lparr>node = ImportDeclaration importPath, message = scssMessage\<rparr>]
          else sink)"
proof -
  have scss: "endsWith importPath ''.scss'' \<longleftrightarrow> suffix ''.scss'' importPath"
    by (rule endsWith_suffix)
  have css: "endsWith importPath ''.css'' \<longleftrightarrow> suffix ''.css'' importPath"
    by (rule endsWith_suffix)
  show ?thesis
  proof (cases "suffix ''.scss'' importPath \<or> suffix ''.css'' importPath")
    case True
    with scss css have "endsWith importPath ''.scss'' \<or> endsWith importPath ''.css''"
      by simp
    with True show ?thesis by (simp add: report_def)
  next
    case False
    with scss css have "\<not> (endsWith importPath ''.scss'' \<or> endsWith importPath ''.css'')"
      by simp
    with False show ?thesis by simp
  qed
qed

theorem scss_import_reported_iff_suffix_witness:
  "ImportDeclaration_visit (ImportDeclaration ''./x.scss'') [] =
     Inr [\<lparr>node = ImportDeclaration ''./x.scss'', message = scssMessage\<rparr>] \<and>
   ImportDeclaration_visit (ImportDeclaration ''./x.ts'') [] = Inr []"
  using scss_import_reported_iff_suffix [of "''./x.scss''" "[]"]
    scss_import_reported_iff_suffix [of "''./x.ts''" "[]"]
  by (simp add: suffix_def)

subsection \<open>Generic props\<close>

text \<open>
  C4, as stated, fails: \<open>component$(function (props) {...})\<close> has no type arguments and
  its function expression declares a parameter, and nothing is reported.
\<close>

theorem generic_props_function_expression_counterexample:
  "\<not> ((\<exists>d. CallExpression_visit (componentCall [FunctionExpression [Identifier ''props'']] None) [] =
             Inr [d]) \<longleftrightarrow>
        functionNeedsTypeArguments [FunctionExpression [Identifier ''props'']] None)"
  by (simp add: functionNeedsTypeArguments_def)

lemma firstIsArrowWithParams_iff:
  "firstIsArrowWithParams arguments = arrowDeclaresParameter arguments"
  by (induction arguments rule: arrowDeclaresParameter.induct) simp_all

text \<open>
  C4, amended. On a call of \<open>component$\<close>, the rule reports one diagnostic, on the call, if
  and only if the call has no type arguments and its first argument is an arrow function
  expression that declares at least one parameter. A call whose first argument is a
  function of either kind with no parameter is never reported.
\<close>

theorem generic_props_reported_iff_arrow_with_params:
  "CallExpression_visit (componentCall arguments typeArguments) sink =
     Inr (if typeArguments = None \<and> arrowDeclaresParameter arguments
          then sink @ [\<lparr>node = componentCall arguments typeArguments,
                         message = genericPropsMessage\<rparr>]
          else sink) \<and>
   CallExpression_visit (componentCall (ArrowFunctionExpression [] # rest) typeArguments) sink =
     Inr sink \<and>
   CallExpression_visit (componentCall (FunctionExpression [] # rest) typeArguments) sink =
     Inr sink"
proof (intro conjI)
  show "CallExpression_visit (componentCall arguments typeArguments) sink =
     Inr (if typeArguments = None \<and> arrowDeclaresParameter arguments
          then sink @ [\<lparr>node = componentCall arguments typeArguments,
                         message = genericPropsMessage\<rparr>]
          else sink)"
  proof (cases "arrowDeclaresParameter arguments")
    case True
    then have "firstIsArrowWithParams arguments" by (simp add: firstIsArrowWithParams_iff)
    with True show ?thesis by (simp add: report_def)
  next
    case False
    then have "\<not> firstIsArrowWithParams arguments" by (simp add: firstIsArrowWithParams_iff)
    with False show ?thesis by simp
  qed
  show "CallExpression_visit (componentCall (ArrowFunctionExpression [] # rest) typeArguments) sink =
     Inr sink"
    by simp
  show "CallExpression_visit (componentCall (FunctionExpression [] # rest) typeArguments) sink =
     Inr sink"
    by simp
qed

theorem generic_props_reported_iff_arrow_with_params_witness:
  "CallExpression_visit (componentCall [ArrowFunctionExpression []] None) [] = Inr [] \<and>
   CallExpression_visit (componentCall [ArrowFunctionExpression [Identifier ''props'']] None) [] =
     Inr [\<lparr>node = componentCall [ArrowFunctionExpression [Identifier ''props'']] None,
            message = genericPropsMessage\<rparr>] \<and>
   CallExpression_visit
     (componentCall [ArrowFunctionExpression [Identifier ''props'']]
        (Some (OtherNode ''TSTypeParameterInstantiation''))) [] =
     Inr []"
  using generic_props_reported_iff_arrow_with_params [of "[ArrowFunctionExpression []]" None "[]" "[]"]
    generic_props_reported_iff_arrow_with_params
      [of "[ArrowFunctionExpression [Identifier ''props'']]" None "[]" "[]"]
    generic_props_reported_iff_arrow_with_params
      [of "[ArrowFunctionExpression [Identifier ''props'']]"
          "Some (OtherNode ''TSTypeParameterInstantiation'')" "[]" "[]"]
  by simp

subsection \<open>Document head\<close>

lemma declaresHead_declarator:
  "isVariableDeclarator d \<Longrightarrow>
   declaresHead d = Inr (id_of d = Some (Identifier ''head'') \<and> isArrowFunction (init_of d))"
proof (cases d)
  case (VariableDeclarator i init)
  then show ?thesis by (cases i) (auto simp: declaresHead_def)
qed simp_all

lemma exportsHead_wellFormed:
  assumes "list_all isVariableDeclarator (exportedBindings stmt)"
  shows "exportsHead stmt =
         Inr (\<exists>d\<in>set (exportedBindings stmt).
                id_of d = Some (Identifier ''head'') \<and> isArrowFunction (init_of d))"
proof (cases "\<exists>ds. stmt = ExportNamedDeclaration (Some (VariableDeclaration ds))")
  case True
  then obtain ds where s: "stmt = ExportNamedDeclaration (Some (VariableDeclaration ds))" by blast
  with assms have "\<And>d. d \<in> set ds \<Longrightarrow>
      declaresHead d = Inr (id_of d = Some (Identifier ''head'') \<and> isArrowFunction (init_of d))"
    by (simp add: list_all_iff declaresHead_declarator)
  then have "some_e declaresHead ds =
      Inr (\<exists>d\<in>set ds. id_of d = Some (Identifier ''head'') \<and> isArrowFunction (init_of d))"
    by (rule some_e_total)
  with s show ?thesis by simp
next
  case False
  then have "exportsHead stmt = Inr False \<and> exportedBindings stmt = []"
    by (induction stmt rule: exportsHead.induct) simp_all
  then show ?thesis by simp
qed

lemma hasDocumentHeadExport_wellFormed:
  assumes "wellFormedExports body"
  shows "some_e exportsHead body = Inr (exportsHeadArrow body)"
proof -
  from assms have "\<And>stmt. stmt \<in> set body \<Longrightarrow> exportsHead stmt =
      Inr (\<exists>d\<in>set (exportedBindings stmt).
             id_of d = Some (Identifier ''head'') \<and> isArrowFunction (init_of d))"
    by (intro exportsHead_wellFormed) (simp add: wellFormedExports_def)
  then show ?thesis
    unfolding exportsHeadArrow_def by (rule some_e_total)
qed

lemma headExports_no_arrow:
  assumes "\<forall>e\<in>set (headExports body). \<not> isArrowFunction (init_of e)"
  shows "\<not> exportsHeadArrow body"
proof
  assume "exportsHeadArrow body"
  then obtain stmt d where sd: "stmt \<in> set body" "d \<in> set (exportedBindings stmt)"
    "id_of d = Some (Identifier ''head'')" "isArrowFunction (init_of d)"
    by (auto simp: exportsHeadArrow_def)
  from sd(2) obtain ds where "stmt = ExportNamedDeclaration (Some (VariableDeclaration ds))"
    by (induction stmt rule: exportedBindings.induct) simp_all
  with sd(2,3) have "d \<in> set (headExportsOf stmt)" by simp
  with sd(1) have "d \<in> set (headExports body)" by (auto simp: headExports_def)
  with assms sd(4) show False by blast
qed

lemma lint_not_excluded:
  assumes "isExcluded regExp (filename ctx) (excludedFilesOf ctx) = Inr False"
    and "ast ctx = Program body" and "wellFormedExports body"
  shows "lint_require_document_head regExp ctx =
         Inr (if exportsHeadArrow body then []
              else [\<lparr>node = Program body, message = documentHeadMessage\<rparr>])"
  using assms
  by (simp add: lint_require_document_head_def create_require_document_head_def Program_visit_def
      hasDocumentHeadExport_wellFormed report_def)

lemma exampleRegExp_layout:
  "exampleRegExp ''layout'' = Some (sublist ''layout'')" "exampleRegExp ''**/x'' = None"
  "sublist ''layout'' ''src/routes/layout.tsx''"
  by (simp_all add: exampleRegExp_def sublist_code prefix_code)

text \<open>
  C5, as stated, fails: a file whose only statement is
  \<open>export const head = function () {}\<close> exports a binding \<open>head\<close> whose initializer is a
  function expression, and the diagnostic is reported.
\<close>

theorem document_head_function_expression_counterexample:
  "\<not> (lint_require_document_head exampleRegExp
          (routeFile ''src/routes/index.tsx'' None [headExport (Some (FunctionExpression []))]) =
          Inr [\<lparr>node = Program [headExport (Some (FunctionExpression []))],
                 message = documentHeadMessage\<rparr>] \<longleftrightarrow>
        \<not> exportsHeadFunction [headExport (Some (FunctionExpression []))])"
  by (simp add: exportsHeadFunction_def lint_require_document_head_def
      create_require_document_head_def isExcluded_def excludedFilesOf_def Program_visit_def
      declaresHead_def report_def)

text \<open>
  C5, amended. For a file that is not excluded, the rule reports exactly one diagnostic,
  on the root node, if and only if no top-level named export binds \<open>head\<close> to an arrow
  function expression; if there is such an export, nothing is reported.
\<close>

theorem document_head_reported_iff_no_arrow_head:
  assumes "isExcluded regExp (filename ctx) (excludedFilesOf ctx) = Inr False"
    and "ast ctx = Program body" and "wellFormedExports body"
  shows "lint_require_document_head regExp ctx =
         Inr (if exportsHeadArrow body then []
              else [\<lparr>node = Program body, message = documentHeadMessage\<rparr>])"
  using assms by (rule lint_not_excluded)

theorem document_head_reported_iff_no_arrow_head_witness:
  "isExcluded exampleRegExp ''src/routes/index.tsx'' [] = Inr False \<and>
   wellFormedExports [headExport (Some (ArrowFunctionExpression []))] \<and>
   exportsHeadArrow [headExport (Some (ArrowFunctionExpression []))] \<and>
   lint_require_document_head exampleRegExp
     (routeFile ''src/routes/index.tsx'' None [headExport (Some (ArrowFunctionExpression []))]) = Inr [] \<and>
   wellFormedExports [ImportDeclaration ''./x.ts''] \<and>
   \<not> exportsHeadArrow [ImportDeclaration ''./x.ts''] \<and>
   lint_require_document_head exampleRegExp
     (routeFile ''src/routes/index.tsx'' None [ImportDeclaration ''./x.ts'']) =
     Inr [\<lparr>node = Program [ImportDeclaration ''./x.ts''], message = documentHeadMessage\<rparr>]"
proof -
  let ?b1 = "[headExport (Some (ArrowFunctionExpression []))]"
  let ?b2 = "[ImportDeclaration ''./x.ts'']"
  have x: "isExcluded exampleRegExp ''src/routes/index.tsx'' [] = Inr False"
    by (simp add: isExcluded_def)
  have x1: "isExcluded exampleRegExp (filename (routeFile ''src/routes/index.tsx'' None ?b1))
      (excludedFilesOf (routeFile ''src/routes/index.tsx'' None ?b1)) = Inr False"
    by (simp add: isExcluded_def excludedFilesOf_def)
  have x2: "isExcluded exampleRegExp (filename (routeFile ''src/routes/index.tsx'' None ?b2))
      (excludedFilesOf (routeFile ''src/routes/index.tsx'' None ?b2)) = Inr False"
    by (simp add: isExcluded_def excludedFilesOf_def)
  have w1: "wellFormedExports ?b1" by (simp add: wellFormedExports_def)
  have w2: "wellFormedExports ?b2" by (simp add: wellFormedExports_def)
  have h1: "exportsHeadArrow ?b1" by (simp add: exportsHeadArrow_def)
  have h2: "\<not> exportsHeadArrow ?b2" by (simp add: exportsHeadArrow_def)
  have a1: "ast (routeFile ''src/routes/index.tsx'' None ?b1) = Program ?b1" by simp
  have a2: "ast (routeFile ''src/routes/index.tsx'' None ?b2) = Program ?b2" by simp
  from document_head_reported_iff_no_arrow_head [OF x1 a1 w1]
    document_head_reported_iff_no_arrow_head [OF x2 a2 w2] x w1 w2 h1 h2
  show ?thesis by (simp only: simp_thms if_True if_False)
qed

text \<open>
  C9. Only an arrow function expression counts. For a file that is not excluded, if
  nothing the file exports under the name \<open>head\<close> is a binding initialised with an arrow
  function expression (so, when its sole \<open>head\<close> export is a binding initialised with
  \<open>function () {...}\<close>, or an exported function declaration \<open>head\<close>), the diagnostic is
  reported.
\<close>

theorem document_head_non_arrow_still_reported:
  assumes "isExcluded regExp (filename ctx) (excludedFilesOf ctx) = Inr False"
    and "ast ctx = Program body" and "wellFormedExports body"
    and "\<forall>e\<in>set (headExports body). \<not> isArrowFunction (init_of e)"
  shows "lint_require_document_head regExp ctx =
         Inr [\<lparr>node = Program body, message = documentHeadMessage\<rparr>]"
  using lint_not_excluded [OF assms(1-3)] headExports_no_arrow [OF assms(4)] by simp

theorem document_head_non_arrow_still_reported_witness:
  "headExports [headExport (Some (FunctionExpression []))] =
     [VariableDeclarator (Identifier ''head'') (Some (FunctionExpression []))] \<and>
   lint_require_document_head exampleRegExp
     (routeFile ''src/routes/index.tsx'' None [headExport (Some (FunctionExpression []))]) =
     Inr [\<lparr>node = Program [headExport (Some (FunctionExpression []))],
            message = documentHeadMessage\<rparr>] \<and>
   headExports [headFunctionDeclaration] = [FunctionDeclaration (Identifier ''head'') []] \<and>
   lint_require_document_head exampleRegExp
     (routeFile ''src/routes/index.tsx'' None [headFunctionDeclaration]) =
     Inr [\<lparr>node = Program [headFunctionDeclaration], message = documentHeadMessage\<rparr>]"
proof -
  let ?b1 = "[headExport (Some (FunctionExpression []))]"
  let ?b2 = "[headFunctionDeclaration]"
  have x1: "isExcluded exampleRegExp (filename (routeFile ''src/routes/index.tsx'' None ?b1))
      (excludedFilesOf (routeFile ''src/routes/index.tsx'' None ?b1)) = Inr False"
    by (simp add: isExcluded_def excludedFilesOf_def)
  have x2: "isExcluded exampleRegExp (filename (routeFile ''src/routes/index.tsx'' None ?b2))
      (excludedFilesOf (routeFile ''src/routes/index.tsx'' None ?b2)) = Inr False"
    by (simp add: isExcluded_def excludedFilesOf_def)
  have w1: "wellFormedExports ?b1" by (simp add: wellFormedExports_def)
  have w2: "wellFormedExports ?b2" by (simp add: wellFormedExports_def)
  have e1: "headExports ?b1 = [VariableDeclarator (Identifier ''head'') (Some (FunctionExpression []))]"
    by (simp add: headExports_def)
  have e2: "headExports ?b2 = [FunctionDeclaration (Identifier ''head'') []]"
    by (simp add: headExports_def)
  have n1: "\<forall>e\<in>set (headExports ?b1). \<not> isArrowFunction (init_of e)" by (simp add: e1)
  have n2: "\<forall>e\<in>set (headExports ?b2). \<not> isArrowFunction (init_of e)" by (simp add: e2)
  have a1: "ast (routeFile ''src/routes/index.tsx'' None ?b1) = Program ?b1" by simp
  have a2: "ast (routeFile ''src/routes/index.tsx'' None ?b2) = Program ?b2" by simp
  from document_head_non_arrow_still_reported [OF x1 a1 w1 n1]
    document_head_non_arrow_still_reported [OF x2 a2 w2 n2] e1 e2
  show ?thesis by (simp only: simp_thms)
qed

subsection \<open>Excluded files\<close>

lemma patternMatches_valid:
  "regExp p \<noteq> None \<Longrightarrow>
   patternMatches regExp filePath p = Inr (\<exists>test. regExp p = Some test \<and> test filePath)"
  by (auto simp: patternMatches_def)

lemma isExcluded_valid:
  assumes "\<forall>p\<in>set patterns. regExp p \<noteq> None"
  shows "isExcluded regExp filePath patterns =
         Inr (\<exists>p\<in>set patterns. \<exists>test. regExp p = Some test \<and> test filePath)"
  unfolding isExcluded_def using assms
  by (intro some_e_total patternMatches_valid) simp

lemma isExcluded_match:
  "\<exists>p\<in>set patterns. \<exists>test. regExp p = Some test \<and> test filePath \<Longrightarrow>
   isExcluded regExp filePath patterns = Inr True \<or>
   isExcluded regExp filePath patterns = Inl SyntaxError"
proof (induction patterns)
  case Nil
  then show ?case by simp
next
  case (Cons q patterns)
  then show ?case
    by (cases "regExp q") (auto simp: isExcluded_def patternMatches_def)
qed

lemma isExcluded_invalid:
  assumes "regExp p = None"
    and "\<forall>q\<in>set before. \<exists>test. regExp q = Some test \<and> \<not> test filePath"
  shows "isExcluded regExp filePath (before @ p # after) = Inl SyntaxError"
  using assms(2)
proof (induction before)
  case Nil
  with assms(1) show ?case by (simp add: isExcluded_def patternMatches_def)
next
  case (Cons q before)
  then show ?case by (auto simp: isExcluded_def patternMatches_def)
qed

text \<open>
  C6. The exclusion check answers false on the empty pattern list, for every file path;
  absent options and an absent \<open>excludedFiles\<close> give the empty list, and then \<open>create\<close>
  registers the \<open>Program\<close> visitor. When the path of the file matches some configured
  pattern, \<open>create\<close> never registers the \<open>Program\<close> visitor and no diagnostic is reported,
  whatever the file exports; when moreover every configured pattern is a regular
  expression, \<open>create\<close> returns the empty table and the run of the rule reports nothing.
\<close>

theorem exclusion_empty_and_matching:
  "isExcluded regExp filePath [] = Inr False \<and>
   (options0 ctx = None \<longrightarrow> excludedFilesOf ctx = []) \<and>
   (options0 ctx = Some opts \<and> excludedFiles opts = None \<longrightarrow> excludedFilesOf ctx = []) \<and>
   (excludedFilesOf ctx = [] \<longrightarrow> create_require_document_head regExp ctx = Inr ProgramVisitor) \<and>
   ((\<exists>p\<in>set (excludedFilesOf ctx). \<exists>test. regExp p = Some test \<and> test (filename ctx)) \<longrightarrow>
      create_require_document_head regExp ctx \<noteq> Inr ProgramVisitor \<and>
      (\<forall>ds. lint_require_document_head regExp ctx = Inr ds \<longrightarrow> ds = []) \<and>
      ((\<forall>p\<in>set (excludedFilesOf ctx). regExp p \<noteq> None) \<longrightarrow>
         create_require_document_head regExp ctx = Inr NoVisitors \<and>
         lint_require_document_head regExp ctx = Inr []))"
proof (intro conjI impI)
  show "isExcluded regExp filePath [] = Inr False" by (simp add: isExcluded_def)
  show "excludedFilesOf ctx = []" if "options0 ctx = None"
    using that by (simp add: excludedFilesOf_def)
  show "excludedFilesOf ctx = []" if "options0 ctx = Some opts \<and> excludedFiles opts = None"
    using that by (simp add: excludedFilesOf_def)
  show "create_require_document_head regExp ctx = Inr ProgramVisitor" if "excludedFilesOf ctx = []"
    using that by (simp add: create_require_document_head_def isExcluded_def)
next
  assume m: "\<exists>p\<in>set (excludedFilesOf ctx). \<exists>test. regExp p = Some test \<and> test (filename ctx)"
  from isExcluded_match [OF m]
  show "create_require_document_head regExp ctx \<noteq> Inr ProgramVisitor"
    by (auto simp: create_require_document_head_def)
  from isExcluded_match [OF m]
  show "\<forall>ds. lint_require_document_head regExp ctx = Inr ds \<longrightarrow> ds = []"
    by (auto simp: lint_require_document_head_def create_require_document_head_def)
  assume v: "\<forall>p\<in>set (excludedFilesOf ctx). regExp p \<noteq> None"
  from isExcluded_valid [OF v, of "filename ctx"] m
  show "create_require_document_head regExp ctx = Inr NoVisitors"
    by (simp add: create_require_document_head_def)
  then show "lint_require_document_head regExp ctx = Inr []"
    by (simp add: lint_require_document_head_def)
qed

theorem exclusion_empty_and_matching_witness:
  "excludedFilesOf \<lparr>filename = ''src/routes/index.tsx'', options0 = None, ast = Program []\<rparr> = [] \<and>
   create_require_document_head exampleRegExp
     \<lparr>filename = ''src/routes/index.tsx'', options0 = None, ast = Program []\<rparr> = Inr ProgramVisitor \<and>
   excludedFilesOf (routeFile ''src/routes/index.tsx'' None []) = [] \<and>
   exampleRegExp ''layout'' = Some (sublist ''layout'') \<and>
   sublist ''layout'' ''src/routes/layout.tsx'' \<and>
   create_require_document_head exampleRegExp
     (routeFile ''src/routes/layout.tsx'' (Some [''layout'']) []) = Inr NoVisitors \<and>
   lint_require_document_head exampleRegExp
     (routeFile ''src/routes/layout.tsx'' (Some [''layout'']) []) = Inr []"
proof -
  let ?c0 = "\<lparr>filename = ''src/routes/index.tsx'', options0 = None, ast = Program []\<rparr>"
  let ?c1 = "routeFile ''src/routes/index.tsx'' None []"
  let ?c2 = "routeFile ''src/routes/layout.tsx'' (Some [''layout'']) []"
  note t0 = exclusion_empty_and_matching [of exampleRegExp "''src/routes/index.tsx''" ?c0 "\<lparr>excludedFiles = None\<rparr>"]
  note t1 = exclusion_empty_and_matching [of exampleRegExp "''src/routes/index.tsx''" ?c1 "\<lparr>excludedFiles = None\<rparr>"]
  note t2 = exclusion_empty_and_matching [of exampleRegExp "''src/routes/layout.tsx''" ?c2 "\<lparr>excludedFiles = None\<rparr>"]
  have o0: "options0 ?c0 = None" by simp
  have o1: "options0 ?c1 = Some \<lparr>excludedFiles = None\<rparr> \<and> excludedFiles \<lparr>excludedFiles = None\<rparr> = None"
    by simp
  have e2: "excludedFilesOf ?c2 = [''layout'']" by (simp add: excludedFilesOf_def)
  have m: "\<exists>p\<in>set (excludedFilesOf ?c2). \<exists>test. exampleRegExp p = Some test \<and> test (filename ?c2)"
    by (simp add: e2 exampleRegExp_layout)
  have v: "\<forall>p\<in>set (excludedFilesOf ?c2). exampleRegExp p \<noteq> None"
    by (simp add: e2 exampleRegExp_layout)
  from t0 o0 have r0: "excludedFilesOf ?c0 = []" by blast
  with t0 have r0': "create_require_document_head exampleRegExp ?c0 = Inr ProgramVisitor" by blast
  from t1 o1 have r1: "excludedFilesOf ?c1 = []" by blast
  from t2 m v have r2: "create_require_document_head exampleRegExp ?c2 = Inr NoVisitors"
    "lint_require_document_head exampleRegExp ?c2 = Inr []" by blast+
  from r0 r0' r1 r2 exampleRegExp_layout(1,3) show ?thesis by (simp only: simp_thms)
qed

text \<open>
  C10. The patterns are compiled as regular expressions and tested against the file path:
  when all of them compile, the file is excluded if and only if the matcher of some pattern
  accepts the path. A pattern that does not compile (for the ECMAScript engine, a glob
  such as \<open>**/x\<close>) makes \<open>create\<close> throw a \<open>SyntaxError\<close> before it returns a table, when
  no pattern before it matches the path.
\<close>

theorem exclusion_patterns_are_regular_expressions:
  "((\<forall>p\<in>set patterns. regExp p \<noteq> None) \<longrightarrow>
      isExcluded regExp filePath patterns =
        Inr (\<exists>p\<in>set patterns. \<exists>test. regExp p = Some test \<and> test filePath)) \<and>
   (regExp p = None \<and> (\<forall>q\<in>set before. \<exists>test. regExp q = Some test \<and> \<not> test (filename ctx)) \<and>
    excludedFilesOf ctx = before @ p # after \<longrightarrow>
      create_require_document_head regExp ctx = Inl SyntaxError \<and>
      lint_require_document_head regExp ctx = Inl SyntaxError)"
proof (intro conjI impI)
  assume "\<forall>p\<in>set patterns. regExp p \<noteq> None"
  then show "isExcluded regExp filePath patterns =
        Inr (\<exists>p\<in>set patterns. \<exists>test. regExp p = Some test \<and> test filePath)"
    by (rule isExcluded_valid)
next
  assume a: "regExp p = None \<and> (\<forall>q\<in>set before. \<exists>test. regExp q = Some test \<and> \<not> test (filename ctx)) \<and>
    excludedFilesOf ctx = before @ p # after"
  then have "isExcluded regExp (filename ctx) (excludedFilesOf ctx) = Inl SyntaxError"
    using isExcluded_invalid [of regExp p before "filename ctx" after] by simp
  then show "create_require_document_head regExp ctx = Inl SyntaxError"
    by (simp add: create_require_document_head_def)
  then show "lint_require_document_head regExp ctx = Inl SyntaxError"
    by (simp add: lint_require_document_head_def)
qed

theorem exclusion_patterns_are_regular_expressions_witness:
  "isExcluded exampleRegExp ''src/routes/layout.tsx'' [''layout''] = Inr True \<and>
   isExcluded exampleRegExp ''src/routes/index.tsx'' [''layout''] = Inr False \<and>
   exampleRegExp ''**/x'' = None \<and>
   create_require_document_head exampleRegExp
     (routeFile ''src/routes/index.tsx'' (Some [''layout'', ''**/x'']) []) = Inl SyntaxError \<and>
   lint_require_document_head exampleRegExp
     (routeFile ''src/routes/index.tsx'' (Some [''layout'', ''**/x'']) []) = Inl SyntaxError"
proof -
  let ?c = "routeFile ''src/routes/index.tsx'' (Some [''layout'', ''**/x'']) []"
  have n: "\<not> sublist ''layout'' ''src/routes/index.tsx''"
    by (simp add: sublist_code prefix_code)
  have v: "\<forall>p\<in>set [''layout'']. exampleRegExp p \<noteq> None"
    by (simp add: exampleRegExp_layout)
  have a: "exampleRegExp ''**/x'' = None \<and>
      (\<forall>q\<in>set [''layout'']. \<exists>test. exampleRegExp q = Some test \<and> \<not> test (filename ?c)) \<and>
      excludedFilesOf ?c = [''layout''] @ ''**/x'' # []"
    using n by (simp add: exampleRegExp_layout excludedFilesOf_def)
  note t1 = exclusion_patterns_are_regular_expressions
      [of "[''layout'']" exampleRegExp "''src/routes/layout.tsx''" "''**/x''" "[''layout'']" ?c "[]"]
  note t2 = exclusion_patterns_are_regular_expressions
      [of "[''layout'']" exampleRegExp "''src/routes/index.tsx''" "''**/x''" "[''layout'']" ?c "[]"]
  from t1 v have "isExcluded exampleRegExp ''src/routes/layout.tsx'' [''layout''] = Inr True"
    by (simp add: exampleRegExp_layout)
  moreover from t2 v n have "isExcluded exampleRegExp ''src/routes/index.tsx'' [''layout''] = Inr False"
    by (simp add: exampleRegExp_layout)
  moreover from t2 a have "create_require_document_head exampleRegExp ?c = Inl SyntaxError"
    "lint_require_document_head exampleRegExp ?c = Inl SyntaxError" by blast+
  ultimately show ?thesis using exampleRegExp_layout(2) by (simp only: simp_thms)
qed

end
